theory Spec2Isabelle
  imports Main
begin

section \<open>Python strings\<close>

text \<open>
  A Python \<open>str\<close> is a sequence of code points. The model uses \<open>string\<close>, whose
  characters are the code points below 256; \<open>length\<close> counts code points, as
  \<open>len\<close> does. The character classes below are Python's on that range.
\<close>

definition newline :: char where
  "newline = CHR 0x0A"

text \<open>\<open>str.isspace\<close> on one character, which is also what \<open>\s\<close> of \<open>re\<close> matches.\<close>

definition is_space :: "char \<Rightarrow> bool" where
  "is_space c = (c \<in> set [CHR 0x09, CHR 0x0A, CHR 0x0B, CHR 0x0C, CHR 0x0D,
                            CHR 0x1C, CHR 0x1D, CHR 0x1E, CHR 0x1F, CHR 0x20,
                            CHR 0x85, CHR 0xA0])"

text \<open>\<open>\d\<close> of \<open>re\<close>: the decimal digits.\<close>

definition is_digit :: "char \<Rightarrow> bool" where
  "is_digit c = (c \<in> set ''0123456789'')"

text \<open>\<open>str.lower\<close> on one character: A-Z, and the upper-case letters of 0xC0-0xDE.\<close>

definition lower_char :: "char \<Rightarrow> char" where
  "lower_char c =
     (let n = (of_char c :: nat)
      in if (65 \<le> n \<and> n \<le> 90) \<or> (192 \<le> n \<and> n \<le> 222 \<and> n \<noteq> 215)
         then char_of (n + 32) else c)"

definition lower :: "string \<Rightarrow> string" where
  "lower s = map lower_char s"

text \<open>\<open>s.strip()\<close>: leading and trailing whitespace removed.\<close>

definition strip :: "string \<Rightarrow> string" where
  "strip s = rev (dropWhile is_space (rev (dropWhile is_space s)))"

text \<open>\<open>s.startswith(p)\<close>.\<close>

fun startswith :: "string \<Rightarrow> string \<Rightarrow> bool" where
  "startswith s [] = True"
| "startswith [] (p # ps) = False"
| "startswith (c # cs) (p # ps) = (c = p \<and> startswith cs ps)"

text \<open>\<open>k in s\<close> for strings: \<open>k\<close> occurs in \<open>s\<close> as a substring.\<close>

fun contains :: "string \<Rightarrow> string \<Rightarrow> bool" where
  "contains [] k = (k = [])"
| "contains (c # cs) k = (startswith (c # cs) k \<or> contains cs k)"

text \<open>\<open>s.split(d)\<close> for a one-character separator: never the empty list.\<close>

fun split :: "char \<Rightarrow> string \<Rightarrow> string list" where
  "split d [] = [[]]"
| "split d (c # cs) =
     (if c = d then [] # split d cs
      else (case split d cs of
              [] \<Rightarrow> [[c]]
            | l # ls \<Rightarrow> (c # l) # ls))"

text \<open>\<open>sep.join(xs)\<close>.\<close>

fun join :: "string \<Rightarrow> string list \<Rightarrow> string" where
  "join sep [] = []"
| "join sep [x] = x"
| "join sep (x # y # ys) = x @ sep @ join sep (y # ys)"

text \<open>\<open>str(n)\<close> for a natural number: its decimal digits.\<close>

definition digit_char :: "nat \<Rightarrow> char" where
  "digit_char d = char_of (48 + d)"

fun str_of_nat :: "nat \<Rightarrow> string" where
  "str_of_nat n =
     (if n < 10 then [digit_char n]
      else str_of_nat (n div 10) @ [digit_char (n mod 10)])"

section \<open>utils.py: TextCleaner\<close>

definition PREFIXES_TO_REMOVE :: "string list" where
  "PREFIXES_TO_REMOVE =
     [''Translation:'', ''Here is the translation:'', ''The translation is:'',
      ''Translated text:'', ''Result:'', ''Output:'', ''Answer:'', ''Response:'']"

definition METADATA_KEYWORDS :: "string list" where
  "METADATA_KEYWORDS = [''used_tools='', ''tools_errors='', ''delegations='', ''i18n='']"

text \<open>
  The loop over the prefixes: the first prefix that the text starts with
  (case-insensitively) is cut off, the rest is stripped, and the loop is left.
\<close>

fun remove_prefix :: "string list \<Rightarrow> string \<Rightarrow> string" where
  "remove_prefix [] text = text"
| "remove_prefix (prefix # prefixes) text =
     (if startswith (lower text) (lower prefix)
      then strip (drop (length prefix) text)
      else remove_prefix prefixes text)"

text \<open>
  The loop over the lines: a line is stripped, dropped when it holds a metadata
  keyword or starts with the bracketed marker, and kept when it is neither empty
  nor a comment.
\<close>

fun clean_lines :: "string list \<Rightarrow> string list" where
  "clean_lines [] = []"
| "clean_lines (l # ls) =
     (let line = strip l
      in if \<exists>keyword \<in> set METADATA_KEYWORDS. contains (lower line) keyword
         then clean_lines ls
         else if startswith line ''[Translation of item''
         then clean_lines ls
         else if line \<noteq> [] \<and> \<not> startswith line ''#''
         then line # clean_lines ls
         else clean_lines ls)"

definition clean_translation_result :: "string \<Rightarrow> string" where
  "clean_translation_result result_text =
     (let text = strip result_text;
          text = remove_prefix PREFIXES_TO_REMOVE text;
          lines = split newline text;
          cleaned_lines = clean_lines lines
      in strip (join [newline] cleaned_lines))"

section \<open>translation_engine.py: TranslationEngine\<close>

text \<open>\<open>re.match(r'^\d+\.', line)\<close>: one or more digits, then a period.\<close>

definition is_marker :: "string \<Rightarrow> bool" where
  "is_marker line =
     (takeWhile is_digit line \<noteq> [] \<and> startswith (dropWhile is_digit line) ''.'')"

text \<open>
  \<open>re.sub(r'^\d+\.\s*', '', line)\<close>: the digits, the period and the whitespace
  after it are removed; a line that does not match is returned as it is.
\<close>

definition remove_marker :: "string \<Rightarrow> string" where
  "remove_marker line =
     (if is_marker line then dropWhile is_space (drop 1 (dropWhile is_digit line))
      else line)"

text \<open>
  The loop of \<open>_parse_translation_result\<close> over the lines of the cleaned text, with
  its two variables \<open>translated_texts\<close> and \<open>current_text\<close>.
\<close>

fun parse_loop :: "string list \<Rightarrow> string list \<Rightarrow> string \<Rightarrow> string list \<times> string" where
  "parse_loop [] translated_texts current_text = (translated_texts, current_text)"
| "parse_loop (l # ls) translated_texts current_text =
     (let line = strip l
      in if is_marker line
         then parse_loop ls
                (if current_text \<noteq> [] then translated_texts @ [strip current_text]
                 else translated_texts)
                (remove_marker line)
         else if current_text \<noteq> []
         then parse_loop ls translated_texts
                (if line \<noteq> [] then current_text @ '' '' @ line else current_text)
         else parse_loop ls translated_texts current_text)"

text \<open>The numbered items of a cleaned text, before they are aligned with the inputs.\<close>

definition parse_items :: "string \<Rightarrow> string list" where
  "parse_items cleaned_result =
     (let (translated_texts, current_text) = parse_loop (split newline cleaned_result) [] []
      in if current_text \<noteq> [] then translated_texts @ [strip current_text]
         else translated_texts)"

text \<open>
  The loop of \<open>_align_translations_with_inputs\<close> over the batch, with its counter
  \<open>translated_index\<close>.
\<close>

fun align_loop :: "string list \<Rightarrow> string list \<Rightarrow> nat \<Rightarrow> string list" where
  "align_loop translated_texts [] translated_index = []"
| "align_loop translated_texts (original_text # batch_texts) translated_index =
     (if strip original_text \<noteq> []
      then (if translated_index < length translated_texts
            then translated_texts ! translated_index
                   # align_loop translated_texts batch_texts (translated_index + 1)
            else original_text # align_loop translated_texts batch_texts translated_index)
      else original_text # align_loop translated_texts batch_texts translated_index)"

definition align_translations_with_inputs :: "string list \<Rightarrow> string list \<Rightarrow> string list" where
  "align_translations_with_inputs translated_texts batch_texts =
     align_loop translated_texts batch_texts 0"

definition parse_translation_result :: "string \<Rightarrow> string list \<Rightarrow> string list" where
  "parse_translation_result result batch_texts =
     align_translations_with_inputs
       (parse_items (clean_translation_result result)) batch_texts"

text \<open>
  The backend is \<open>crew.kickoff()\<close>: the crew, its agent and the fixed instruction
  text that \<open>_create_translation_task\<close> puts around \<open>batch_text\<close> are outside the
  model. A backend is a function of the prompt bodies it has received so far and of
  the one it receives now, so that it may answer differently at every call; it
  returns the raw response (\<open>Inr\<close>) or raises an \<open>Exception\<close> with a message
  (\<open>Inl\<close>). The list of the prompt bodies sent is threaded through the calls.
  An engine is constructed only from a configuration that has a target language (see
  \<open>new_engine\<close> below), which is what \<open>_create_translation_task\<close> reads.
\<close>

type_synonym backend = "string list \<Rightarrow> string \<Rightarrow> string + string"

datatype cfg_value = CStr string | CInt int | CBool bool

type_synonym config = "string \<rightharpoonup> cfg_value"

record engine =
  config :: config
  kickoff :: backend

text \<open>
  The loop of \<open>translate_batch\<close> over \<open>enumerate(batch_texts, 1)\<close>: the texts that
  are non-empty after stripping, each behind its position in the batch.
\<close>

fun numbered_from :: "nat \<Rightarrow> string list \<Rightarrow> string list" where
  "numbered_from i [] = []"
| "numbered_from i (text # batch_texts) =
     (if strip text \<noteq> []
      then (str_of_nat i @ ''. '' @ text) # numbered_from (i + 1) batch_texts
      else numbered_from (i + 1) batch_texts)"

definition translate_batch ::
  "engine \<Rightarrow> string list \<Rightarrow> string list \<Rightarrow> nat \<Rightarrow> string list \<times> string list" where
  "translate_batch eng sent batch_texts batch_index =
     (let numbered_texts = numbered_from 1 batch_texts
      in if numbered_texts = [] then (batch_texts, sent)
         else
           (let batch_text = join [newline, newline] numbered_texts
            in case kickoff eng sent batch_text of
                 Inr result \<Rightarrow>
                   (parse_translation_result result batch_texts, sent @ [batch_text])
               | Inl e \<Rightarrow> (batch_texts, sent @ [batch_text])))"

section \<open>translation_engine.py: BatchProcessor\<close>

text \<open>
  The paragraph dictionary that \<open>analyze_paragraph_structure\<close> builds. The key
  \<open>index\<close> is added by the reader afterwards, so it may be absent.
\<close>

record para =
  ptext :: string
  is_bold :: bool
  is_italic :: bool
  alignment :: "int option"
  style_name :: string
  has_numbering :: bool
  indent_level :: int
  has_image :: bool
  image_data :: "string option"
  index :: "nat option"

datatype py_error =
    KeyError string
  | TypeError
  | ValueError
  | ZeroDivisionError
  | IOError string

text \<open>
  The inner loop of \<open>process_paragraphs\<close>: \<open>enumerate(translated_texts)\<close> guarded by
  \<open>j < len(batch)\<close> pairs the two lists up to the shorter one; each paragraph is
  copied with its text replaced.
\<close>

definition update_batch :: "para list \<Rightarrow> string list \<Rightarrow> para list" where
  "update_batch batch translated_texts =
     map (\<lambda>(p, translated_text). p\<lparr>ptext := translated_text\<rparr>) (zip batch translated_texts)"

text \<open>
  \<open>time.sleep(self.config.get('batch_delay', 1))\<close> at the end of every round of the
  loop: the wait itself changes nothing, but a string raises \<open>TypeError\<close> and a
  negative number \<open>ValueError\<close>; a boolean counts as 0 or 1. \<open>None\<close> when the call
  returns.
\<close>

definition sleep_batch_delay :: "config \<Rightarrow> py_error option" where
  "sleep_batch_delay cfg =
     (case cfg ''batch_delay'' of
        None \<Rightarrow> None
      | Some (CInt n) \<Rightarrow> if n < 0 then Some ValueError else None
      | Some (CBool b) \<Rightarrow> None
      | Some (CStr s) \<Rightarrow> Some TypeError)"

text \<open>
  The loop \<open>for i in range(0, len(paragraphs), batch_size)\<close> for a positive step. An
  error of \<open>time.sleep\<close> ends the loop, and nothing catches it. The logging calls
  read the paragraphs only and are left out.
\<close>

function process_loop ::
  "engine \<Rightarrow> nat \<Rightarrow> para list \<Rightarrow> nat \<Rightarrow> para list \<Rightarrow> string list
     \<Rightarrow> py_error + (para list \<times> string list)" where
  "process_loop eng batch_size paragraphs i translated_paragraphs sent =
     (if batch_size = 0 \<or> length paragraphs \<le> i then Inr (translated_paragraphs, sent)
      else
        (let batch = take batch_size (drop i paragraphs);
             batch_texts = map ptext batch;
             batch_index = i div batch_size;
             (translated_texts, sent') = translate_batch eng sent batch_texts batch_index;
             translated_paragraphs = translated_paragraphs @ update_batch batch translated_texts
         in case sleep_batch_delay (config eng) of
              Some e \<Rightarrow> Inl e
            | None \<Rightarrow>
                process_loop eng batch_size paragraphs (i + batch_size)
                  translated_paragraphs sent'))"
  by pat_completeness auto
termination
  by (relation "measure (\<lambda>(eng, batch_size, paragraphs, i, acc, sent). length paragraphs - i)")
     auto

text \<open>
  \<open>self.config.get('batch_size', 3)\<close> and the arithmetic on it: a string raises
  \<open>TypeError\<close>, a boolean counts as 0 or 1.
\<close>

definition get_batch_size :: "config \<Rightarrow> py_error + int" where
  "get_batch_size cfg =
     (case cfg ''batch_size'' of
        None \<Rightarrow> Inr 3
      | Some (CInt n) \<Rightarrow> Inr n
      | Some (CBool b) \<Rightarrow> Inr (if b then 1 else 0)
      | Some (CStr s) \<Rightarrow> Inl TypeError)"

text \<open>
  \<open>process_paragraphs\<close>: the division for \<open>total_batches\<close> raises on a batch size of
  0, and a negative step makes the range empty.
\<close>

definition process_paragraphs ::
  "engine \<Rightarrow> string list \<Rightarrow> para list \<Rightarrow> py_error + (para list \<times> string list)" where
  "process_paragraphs eng sent paragraphs =
     (case get_batch_size (config eng) of
        Inl e \<Rightarrow> Inl e
      | Inr batch_size \<Rightarrow>
          if batch_size = 0 then Inl ZeroDivisionError
          else if batch_size < 0 then Inr ([], sent)
          else process_loop eng (nat batch_size) paragraphs 0 [] sent)"

section \<open>The document, as the code reads it through python-docx\<close>

text \<open>
  A run, with what the code asks of it: its text, its bold and italic attributes
  (which may be unset), the number of \<open>pic:pic\<close> elements below it, and its
  \<open>a:blip\<close> elements in document order, each with its \<open>r:embed\<close> attribute if it has
  one.
\<close>

record run =
  run_text :: string
  bold :: "bool option"
  italic :: "bool option"
  pics :: nat
  blips :: "string option list"

record docx_paragraph =
  runs :: "run list"
  par_alignment :: "int option"
  par_style :: "string option"

text \<open>\<open>run._element.xpath('.//pic:pic')\<close> as a condition.\<close>

definition has_pic :: "run \<Rightarrow> bool" where
  "has_pic r = (0 < pics r)"

text \<open>\<open>paragraph.text\<close>: the texts of the runs.\<close>

definition par_text :: "docx_paragraph \<Rightarrow> string" where
  "par_text p = concat (map run_text (runs p))"

text \<open>\<open>run.text = t\<close>: python-docx replaces the whole content of the run by the text.\<close>

definition set_text :: "run \<Rightarrow> string \<Rightarrow> run" where
  "set_text r t = r\<lparr>run_text := t, pics := 0, blips := []\<rparr>"

text \<open>\<open>paragraph.add_run(t)\<close>: a new last run with that text and no attribute.\<close>

definition add_run :: "docx_paragraph \<Rightarrow> string \<Rightarrow> docx_paragraph" where
  "add_run p t =
     p\<lparr>runs := runs p @ [\<lparr>run_text = t, bold = None, italic = None, pics = 0, blips = []\<rparr>]\<rparr>"

section \<open>utils.py: DocumentAnalyzer\<close>

text \<open>
  The inner loop over the blips of one run: the first identifier that is present
  and non-empty, then \<open>break\<close>.
\<close>

fun first_embed :: "string option list \<Rightarrow> string option" where
  "first_embed [] = None"
| "first_embed (img # imgs) =
     (case img of
        Some image_id \<Rightarrow> if image_id \<noteq> [] then Some image_id else first_embed imgs
      | None \<Rightarrow> first_embed imgs)"

text \<open>The loop over the runs, updating \<open>structure\<close>.\<close>

fun analyze_runs :: "run list \<Rightarrow> para \<Rightarrow> para" where
  "analyze_runs [] structure = structure"
| "analyze_runs (r # rs) structure =
     (let structure = (if bold r = Some True then structure\<lparr>is_bold := True\<rparr> else structure);
          structure = (if italic r = Some True then structure\<lparr>is_italic := True\<rparr> else structure);
          structure =
            (if has_pic r
             then (let structure = structure\<lparr>has_image := True\<rparr>
                   in case first_embed (blips r) of
                        Some image_id \<Rightarrow> structure\<lparr>image_data := Some image_id\<rparr>
                      | None \<Rightarrow> structure)
             else structure)
      in analyze_runs rs structure)"

definition analyze_paragraph_structure :: "docx_paragraph \<Rightarrow> para" where
  "analyze_paragraph_structure p =
     analyze_runs (runs p)
       \<lparr>ptext = par_text p, is_bold = False, is_italic = False,
        alignment = par_alignment p,
        style_name = (case par_style p of Some name \<Rightarrow> name | None \<Rightarrow> ''Normal''),
        has_numbering = False, indent_level = 0, has_image = False,
        image_data = None, index = None\<rparr>"

section \<open>document_io.py: DocumentWriter, the patch of the original document\<close>

record image_info =
  data :: "nat list"
  content_type :: string
  filename :: string

record table =
  table_index :: nat
  table_data :: "string list list"
  rows :: nat
  cols :: nat

record metadata =
  md_total_paragraphs :: nat
  md_total_tables :: nat
  md_total_images :: nat
  md_has_footnotes :: bool

text \<open>
  The content dictionary of the reader; \<open>images\<close> is a dictionary from relationship
  identifiers to image entries, kept as a list of pairs in insertion order.
\<close>

record doc_content =
  dc_paragraphs :: "para list"
  dc_tables :: "table list"
  dc_images :: "(string \<times> image_info) list"
  dc_metadata :: metadata

text \<open>
  The second loop of the first branch of \<open>_update_paragraph_text\<close> and the loop of
  its second branch: the first run without a picture gets the text; \<open>None\<close> when
  every run has a picture.
\<close>

fun set_first_text_run :: "run list \<Rightarrow> string \<Rightarrow> run list option" where
  "set_first_text_run [] t = None"
| "set_first_text_run (r # rs) t =
     (if \<not> has_pic r then Some (set_text r t # rs)
      else map_option ((#) r) (set_first_text_run rs t))"

definition update_paragraph_text :: "docx_paragraph \<Rightarrow> para \<Rightarrow> docx_paragraph" where
  "update_paragraph_text p trans_para =
     (if strip (ptext trans_para) \<noteq> [] \<and> \<not> has_image trans_para
      then
        (let p = p\<lparr>runs := map (\<lambda>r. if \<not> has_pic r then set_text r [] else r) (runs p)\<rparr>
         in if runs p \<noteq> []
            then (case set_first_text_run (runs p) (ptext trans_para) of
                    Some rs \<Rightarrow> p\<lparr>runs := rs\<rparr>
                  | None \<Rightarrow> add_run p (ptext trans_para))
            else add_run p (ptext trans_para))
      else if strip (ptext trans_para) \<noteq> [] \<and> has_image trans_para
      then (case set_first_text_run (runs p) (ptext trans_para) of
              Some rs \<Rightarrow> p\<lparr>runs := rs\<rparr>
            | None \<Rightarrow> add_run p ('' '' @ ptext trans_para))
      else p)"

text \<open>
  The dictionary \<open>{p.get('index', i): p for i, p in enumerate(...)}\<close>: a later
  paragraph replaces an earlier one with the same key.
\<close>

fun index_paragraphs :: "nat \<Rightarrow> para list \<Rightarrow> (nat \<rightharpoonup> para) \<Rightarrow> (nat \<rightharpoonup> para)" where
  "index_paragraphs i [] m = m"
| "index_paragraphs i (p # ps) m =
     index_paragraphs (i + 1) ps (m((case index p of Some k \<Rightarrow> k | None \<Rightarrow> i) \<mapsto> p))"

text \<open>The loop over \<open>enumerate(doc.paragraphs)\<close>.\<close>

fun update_paragraphs ::
  "nat \<Rightarrow> (nat \<rightharpoonup> para) \<Rightarrow> docx_paragraph list \<Rightarrow> docx_paragraph list" where
  "update_paragraphs i translated_paragraphs [] = []"
| "update_paragraphs i translated_paragraphs (p # ps) =
     (case translated_paragraphs i of
        Some trans_para \<Rightarrow> update_paragraph_text p trans_para
      | None \<Rightarrow> p)
     # update_paragraphs (i + 1) translated_paragraphs ps"

text \<open>
  \<open>_update_original_document\<close>, on the paragraphs of the document opened from the
  original path.
\<close>

definition update_original_document ::
  "doc_content \<Rightarrow> docx_paragraph list \<Rightarrow> docx_paragraph list" where
  "update_original_document translated_content doc =
     update_paragraphs 0
       (index_paragraphs 0 (dc_paragraphs translated_content) Map.empty) doc"

section \<open>config.py\<close>

definition DEFAULT_CONFIG :: config where
  "DEFAULT_CONFIG =
     [''target_language'' \<mapsto> CStr ''Hindi'',
      ''batch_size'' \<mapsto> CInt 2,
      ''input_doc'' \<mapsto> CStr ''input.docx'',
      ''output_doc'' \<mapsto> CStr ''translated_paper.docx'',
      ''llm_model'' \<mapsto> CStr ''ollama/mistral:7b'',
      ''verbose'' \<mapsto> CBool False,
      ''translation_quality'' \<mapsto> CStr ''high'']"

text \<open>
  \<open>load_config\<close>: the dictionary of the configuration file as it is, or the default
  configuration when there is no file (\<open>None\<close>).
\<close>

definition load_config :: "config option \<Rightarrow> config" where
  "load_config config_file =
     (case config_file of Some cfg \<Rightarrow> cfg | None \<Rightarrow> DEFAULT_CONFIG)"

section \<open>translation_system.py\<close>

text \<open>
  \<open>TranslationEngine.__init__\<close> builds the agent factory, which reads
  \<open>config['target_language']\<close>.
\<close>

definition new_engine :: "config \<Rightarrow> backend \<Rightarrow> py_error + engine" where
  "new_engine cfg b =
     (case cfg ''target_language'' of
        None \<Rightarrow> Inl (KeyError ''target_language'')
      | Some _ \<Rightarrow> Inr \<lparr>config = cfg, kickoff = b\<rparr>)"

definition translate_tables :: "table list \<Rightarrow> table list" where
  "translate_tables tables = filter (\<lambda>t. table_data t \<noteq> []) tables"

definition create_translated_content ::
  "para list \<Rightarrow> table list \<Rightarrow> doc_content \<Rightarrow> doc_content" where
  "create_translated_content translated_paragraphs translated_tables content =
     \<lparr>dc_paragraphs = translated_paragraphs,
      dc_tables = translated_tables,
      dc_images = dc_images content,
      dc_metadata = dc_metadata content\<rparr>"

record summary =
  status :: string
  output_file :: cfg_value
  paragraphs_translated :: nat
  tables_translated :: nat
  images_preserved :: nat
  total_paragraphs :: nat
  target_language :: cfg_value

definition create_result_summary ::
  "config \<Rightarrow> para list \<Rightarrow> table list \<Rightarrow> doc_content \<Rightarrow> py_error + summary" where
  "create_result_summary cfg translated_paragraphs translated_tables content =
     (case cfg ''output_doc'' of
        None \<Rightarrow> Inl (KeyError ''output_doc'')
      | Some out \<Rightarrow>
          (case cfg ''target_language'' of
             None \<Rightarrow> Inl (KeyError ''target_language'')
           | Some lang \<Rightarrow>
               Inr \<lparr>status = ''completed'',
                    output_file = out,
                    paragraphs_translated = length translated_paragraphs,
                    tables_translated = length translated_tables,
                    images_preserved = length (dc_images content),
                    total_paragraphs = length (dc_paragraphs content),
                    target_language = lang\<rparr>))"

text \<open>
  \<open>run_translation\<close>. The reader and the writer work on files: the reader is a
  function from the input path to the content or an error, the writer a function
  from the content and the two paths to an error, if any. Each step that raises
  ends the run with that error.
\<close>

definition run_translation ::
  "engine \<Rightarrow> (cfg_value \<Rightarrow> py_error + doc_content)
     \<Rightarrow> (doc_content \<Rightarrow> cfg_value \<Rightarrow> cfg_value \<Rightarrow> py_error option)
     \<Rightarrow> string list \<Rightarrow> py_error + summary" where
  "run_translation eng reader writer sent =
     (case config eng ''target_language'' of
        None \<Rightarrow> Inl (KeyError ''target_language'')
      | Some _ \<Rightarrow>
     (case config eng ''input_doc'' of
        None \<Rightarrow> Inl (KeyError ''input_doc'')
      | Some input_doc \<Rightarrow>
     (case reader input_doc of
        Inl e \<Rightarrow> Inl e
      | Inr content \<Rightarrow>
     (case process_paragraphs eng sent (dc_paragraphs content) of
        Inl e \<Rightarrow> Inl e
      | Inr (translated_paragraphs, sent') \<Rightarrow>
     (let translated_tables = translate_tables (dc_tables content);
          translated_content =
            create_translated_content translated_paragraphs translated_tables content
      in case config eng ''output_doc'' of
           None \<Rightarrow> Inl (KeyError ''output_doc'')
         | Some output_doc \<Rightarrow>
        (case writer translated_content output_doc input_doc of
           Some e \<Rightarrow> Inl e
         | None \<Rightarrow>
             create_result_summary (config eng) translated_paragraphs translated_tables
               content))))))"

section \<open>The item rule of the specification\<close>

text \<open>
  The specification's rule for the items of a cleaned text, on its lines: every
  marker line starts an item, which is the line without its marker followed by the
  non-empty lines up to the next marker, each behind a space; lines before the
  first marker belong to no item. The number in a marker is not read.
\<close>

fun spec_items :: "string list \<Rightarrow> string list" where
  "spec_items [] = []"
| "spec_items (l # ls) =
     (if is_marker l
      then foldl (\<lambda>item line. item @ '' '' @ line) (remove_marker l)
             (filter (\<lambda>line. line \<noteq> []) (takeWhile (\<lambda>line. \<not> is_marker line) ls))
           # spec_items ls
      else spec_items ls)"

section \<open>The batches of a run\<close>

text \<open>
  Notions used to state properties of \<open>process_paragraphs\<close>: the \<open>b\<close>-th batch, its
  prompt body, and the prompt bodies sent before the \<open>b\<close>-th batch is translated. The
  last does not depend on what the backend answers: a batch adds its prompt body
  exactly when it has a text that is non-empty after stripping.
\<close>

definition batch_at :: "nat \<Rightarrow> para list \<Rightarrow> nat \<Rightarrow> para list" where
  "batch_at batch_size paragraphs b = take batch_size (drop (b * batch_size) paragraphs)"

definition prompt_of :: "para list \<Rightarrow> string" where
  "prompt_of batch = join [newline, newline] (numbered_from 1 (map ptext batch))"

fun sent_before :: "nat \<Rightarrow> para list \<Rightarrow> string list \<Rightarrow> nat \<Rightarrow> string list" where
  "sent_before batch_size paragraphs sent 0 = sent"
| "sent_before batch_size paragraphs sent (Suc b) =
     (let earlier = sent_before batch_size paragraphs sent b;
          batch = batch_at batch_size paragraphs b
      in if numbered_from 1 (map ptext batch) = [] then earlier
         else earlier @ [prompt_of batch])"

text \<open>The paragraphs that the \<open>b\<close>-th round of the loop appends.\<close>

definition batch_result :: "engine \<Rightarrow> nat \<Rightarrow> para list \<Rightarrow> string list \<Rightarrow> nat \<Rightarrow> para list" where
  "batch_result eng batch_size paragraphs sent b =
     (let batch = batch_at batch_size paragraphs b
      in update_batch batch
           (fst (translate_batch eng (sent_before batch_size paragraphs sent b)
                   (map ptext batch) b)))"


text \<open>Two paragraph dictionaries that differ in their text at most.\<close>

definition same_but_text :: "para \<Rightarrow> para \<Rightarrow> bool" where
  "same_but_text p q = (q = p\<lparr>ptext := ptext q\<rparr>)"

declare process_loop.simps [simp del]
declare str_of_nat.simps [simp del]

section \<open>Example inputs\<close>

definition example_para :: "string \<Rightarrow> nat \<Rightarrow> para" where
  "example_para t i =
     \<lparr>ptext = t, is_bold = False, is_italic = False, alignment = None,
      style_name = ''Normal'', has_numbering = False, indent_level = 0,
      has_image = False, image_data = None, index = Some i\<rparr>"

text \<open>A backend that raises at every call.\<close>

definition failing_backend :: backend where
  "failing_backend sent body = Inl ''timeout''"


definition example_engine :: "backend \<Rightarrow> engine" where
  "example_engine b = \<lparr>config = DEFAULT_CONFIG, kickoff = b\<rparr>"

definition example_content :: doc_content where
  "example_content =
     \<lparr>dc_paragraphs =
        [example_para ''Hello'' 0, example_para ''World'' 1, example_para ''Bye'' 2],
      dc_tables = [],
      dc_images = [],
      dc_metadata = \<lparr>md_total_paragraphs = 3, md_total_tables = 0,
                      md_total_images = 0, md_has_footnotes = False\<rparr>\<rparr>"

definition picture_run :: "string \<Rightarrow> run" where
  "picture_run image_id =
     \<lparr>run_text = [], bold = None, italic = None, pics = 1, blips = [Some image_id]\<rparr>"

definition text_run :: "string \<Rightarrow> run" where
  "text_run t = \<lparr>run_text = t, bold = None, italic = None, pics = 0, blips = []\<rparr>"

definition example_docx_paragraph :: "run list \<Rightarrow> docx_paragraph" where
  "example_docx_paragraph rs = \<lparr>runs = rs, par_alignment = None, par_style = None\<rparr>"

section \<open>The image reference of a paragraph\<close>

text \<open>
  Following the specification's words: the relationship identifier of the first
  embedded image encountered in the paragraph, over the blips of its runs with a
  picture, in document order.
\<close>

definition first_image_reference :: "run list \<Rightarrow> string option" where
  "first_image_reference rs = first_embed (concat (map blips (filter has_pic rs)))"

text \<open>
  The first identifier of the last run that has a picture and an identifier.
\<close>

definition last_image_reference :: "run list \<Rightarrow> string option" where
  "last_image_reference rs =
     (let candidates = filter (\<lambda>r. has_pic r \<and> first_embed (blips r) \<noteq> None) rs
      in if candidates = [] then None else first_embed (blips (last candidates)))"

section \<open>Auxiliary notions for the parser\<close>

text \<open>A string with no whitespace at either end.\<close>

definition tidy :: "string \<Rightarrow> bool" where
  "tidy s = (s = [] \<or> (\<not> is_space (hd s) \<and> \<not> is_space (last s)))"

text \<open>The last step of \<open>_parse_translation_result\<close> before the alignment, on the loop's result.\<close>

definition finish :: "string list \<times> string \<Rightarrow> string list" where
  "finish r = (case r of (translated_texts, current_text) \<Rightarrow>
                 if current_text \<noteq> [] then translated_texts @ [strip current_text]
                 else translated_texts)"

section \<open>Alignment of the parsed items with the batch\<close>

lemma length_align_loop:
  "length (align_loop ts bs k) = length bs"
  by (induction bs arbitrary: k) simp_all

lemma align_loop_nth:
  "i < length bs \<Longrightarrow>
   align_loop ts bs k ! i =
     (if strip (bs ! i) \<noteq> [] \<and> k + length (filter (\<lambda>t. strip t \<noteq> []) (take i bs)) < length ts
      then ts ! (k + length (filter (\<lambda>t. strip t \<noteq> []) (take i bs)))
      else bs ! i)"
proof (induction bs arbitrary: k i)
  case Nil
  then show ?case by simp
next
  case (Cons b bs)
  show ?case
  proof (cases i)
    case 0
    then show ?thesis by simp
  next
    case (Suc j)
    with Cons.prems have j: "j < length bs" by simp
    show ?thesis using Suc Cons.IH[OF j] by simp
  qed
qed

lemma length_parse_translation_result:
  "length (parse_translation_result raw batch_texts) = length batch_texts"
  by (simp add: parse_translation_result_def align_translations_with_inputs_def
        length_align_loop)

text \<open>
  C1. For every raw response and every batch, the parse has as many strings as the
  batch, in batch order: the string at position \<open>i\<close> is the \<open>k\<close>-th parsed item, where
  \<open>k\<close> counts the originals before \<open>i\<close> that are non-empty after stripping, when the
  original at \<open>i\<close> is non-empty after stripping and there is a \<open>k\<close>-th item; it is the
  original itself otherwise (the items are exhausted, or the original is empty or
  whitespace, which consumes no item). Items from the number of non-empty originals
  on are never used.
\<close>

theorem align_parse_length_and_order:
  "length (parse_translation_result raw batch_texts) = length batch_texts \<and>
   (\<forall>i < length batch_texts.
      parse_translation_result raw batch_texts ! i =
        (let items = parse_items (clean_translation_result raw);
             k = length (filter (\<lambda>t. strip t \<noteq> []) (take i batch_texts))
         in if strip (batch_texts ! i) \<noteq> [] \<and> k < length items
            then items ! k else batch_texts ! i))"
  by (simp add: parse_translation_result_def align_translations_with_inputs_def
        length_align_loop align_loop_nth Let_def)

theorem align_parse_length_and_order_witness:
  "length (parse_translation_result ''1. A'' [''x'', '' '', ''y'']) = 3 \<and>
   parse_translation_result ''1. A'' [''x'', '' '', ''y''] ! 0 = ''A'' \<and>
   parse_translation_result ''1. A'' [''x'', '' '', ''y''] ! 1 = '' '' \<and>
   parse_translation_result ''1. A'' [''x'', '' '', ''y''] ! 2 = ''y''"
proof -
  let ?B = "[''x'', '' '', ''y'']"
  note t = align_parse_length_and_order [of "''1. A''" ?B]
  have items: "parse_items (clean_translation_result ''1. A'') = [''A'']"
    by code_simp
  have s: "strip ''x'' = ''x''" "strip '' '' = []" "strip ''y'' = ''y''"
    by code_simp+
  from t have len: "length (parse_translation_result ''1. A'' ?B) = 3"
    by simp
  from t have "\<forall>i<3. parse_translation_result ''1. A'' ?B ! i =
        (let items = parse_items (clean_translation_result ''1. A'');
             k = length (filter (\<lambda>t. strip t \<noteq> []) (take i ?B))
         in if strip (?B ! i) \<noteq> [] \<and> k < length items
            then items ! k else ?B ! i)"
    by simp
  then have "parse_translation_result ''1. A'' ?B ! 0 = ''A''"
    and "parse_translation_result ''1. A'' ?B ! 1 = '' ''"
    and "parse_translation_result ''1. A'' ?B ! 2 = ''y''"
    by (simp_all add: items s)
  with len show ?thesis by simp
qed

text \<open>
  C6. The batch \<open>["Hello world.", "", "Good morning."]\<close> with the raw response
  \<open>"1. Bonjour le monde.\n2. Bonjour."\<close>: the prompt body leaves the empty second
  text out, and parsing and alignment give \<open>["Bonjour le monde.", "", "Bonjour."]\<close>,
  the second item at the third position; so does \<open>translate_batch\<close> with a backend
  that returns this response.
\<close>

theorem scenario_empty_middle:
  "numbered_from 1 [''Hello world.'', '''', ''Good morning.'']
     = [''1. Hello world.'', ''3. Good morning.''] \<and>
   parse_translation_result (''1. Bonjour le monde.'' @ [newline] @ ''2. Bonjour.'')
     [''Hello world.'', '''', ''Good morning.'']
     = [''Bonjour le monde.'', '''', ''Bonjour.''] \<and>
   translate_batch
     \<lparr>config = DEFAULT_CONFIG,
      kickoff = (\<lambda>sent body. Inr (''1. Bonjour le monde.'' @ [newline] @ ''2. Bonjour.''))\<rparr>
     [] [''Hello world.'', '''', ''Good morning.''] 0
     = ([''Bonjour le monde.'', '''', ''Bonjour.''],
        [''1. Hello world.'' @ [newline, newline] @ ''3. Good morning.''])"
  by code_simp

section \<open>The batches of \<open>process_paragraphs\<close>\<close>

lemma numbered_from_empty_iff:
  "numbered_from k bs = [] \<longleftrightarrow> (\<forall>t \<in> set bs. strip t = [])"
  by (induction bs arbitrary: k) auto

lemma length_fst_translate_batch:
  "length (fst (translate_batch eng sent texts k)) = length texts"
  by (simp add: translate_batch_def Let_def length_parse_translation_result split: sum.splits)



lemma length_update_batch:
  "length ts = length batch \<Longrightarrow> length (update_batch batch ts) = length batch"
  by (simp add: update_batch_def)

lemma update_batch_nth:
  "length ts = length batch \<Longrightarrow> j < length batch \<Longrightarrow>
   update_batch batch ts ! j = (batch ! j)\<lparr>ptext := ts ! j\<rparr>"
  by (simp add: update_batch_def)

lemma update_batch_same:
  "update_batch batch (map ptext batch) = batch"
  by (induction batch) (simp_all add: update_batch_def)


lemma update_batch_all2:
  "length ts = length batch \<Longrightarrow> list_all2 same_but_text batch (update_batch batch ts)"
  by (simp add: list_all2_conv_all_nth length_update_batch update_batch_nth same_but_text_def)

lemma batch_result_all2:
  "list_all2 same_but_text (batch_at bs ps b) (batch_result eng bs ps sent b)"
  by (simp add: batch_result_def Let_def update_batch_all2 length_fst_translate_batch)

text \<open>The loop, one batch at a time.\<close>

lemma process_loop_unfold:
  assumes "0 < bs" and "i < length ps"
  shows "process_loop eng bs ps i acc sent =
           (case sleep_batch_delay (config eng) of
              Some e \<Rightarrow> Inl e
            | None \<Rightarrow>
                process_loop eng bs ps (i + bs)
                  (acc @ update_batch (take bs (drop i ps))
                           (fst (translate_batch eng sent (map ptext (take bs (drop i ps)))
                                   (i div bs))))
                  (snd (translate_batch eng sent (map ptext (take bs (drop i ps))) (i div bs))))"
  using assms by (subst process_loop.simps) (simp add: Let_def case_prod_beta)


lemma process_loop_done:
  "length ps \<le> i \<Longrightarrow> process_loop eng bs ps i acc sent = Inr (acc, sent)"
  by (subst process_loop.simps) simp



lemma process_loop_all2:
  assumes bs: "0 < bs"
  shows "process_loop eng bs ps i acc sent = Inr (out', sent') \<Longrightarrow>
         \<exists>out. out' = acc @ out \<and> list_all2 same_but_text (drop i ps) out"
proof (induction "length ps - i" arbitrary: i acc sent rule: less_induct)
  case less
  show ?case
  proof (cases "length ps \<le> i")
    case True
    then show ?thesis using less.prems by (simp add: process_loop_done)
  next
    case False
    then have i: "i < length ps" by simp
    define batch where "batch = take bs (drop i ps)"
    define tt where "tt = fst (translate_batch eng sent (map ptext batch) (i div bs))"
    define sent1 where "sent1 = snd (translate_batch eng sent (map ptext batch) (i div bs))"
    have len: "length tt = length batch"
      by (simp add: tt_def length_fst_translate_batch)
    have unfold: "process_loop eng bs ps i acc sent =
            (case sleep_batch_delay (config eng) of
               Some e \<Rightarrow> Inl e
             | None \<Rightarrow> process_loop eng bs ps (i + bs) (acc @ update_batch batch tt) sent1)"
      unfolding batch_def tt_def sent1_def by (rule process_loop_unfold[OF bs i])
    with less.prems
    have rest: "process_loop eng bs ps (i + bs) (acc @ update_batch batch tt) sent1
                  = Inr (out', sent')"
      by (simp split: option.splits)
    have smaller: "length ps - (i + bs) < length ps - i"
      using bs i by simp
    from less.hyps[OF smaller rest]
    obtain out where out: "out' = (acc @ update_batch batch tt) @ out"
      and rel: "list_all2 same_but_text (drop (i + bs) ps) out"
      by blast
    have split: "drop i ps = batch @ drop (i + bs) ps"
      unfolding batch_def
      using append_take_drop_id[of bs "drop i ps", symmetric]
      by (simp add: add.commute)
    have "list_all2 same_but_text (drop i ps) (update_batch batch tt @ out)"
      unfolding split using update_batch_all2[OF len] rel by (rule list_all2_appendI)
    then show ?thesis using out by simp
  qed
qed



lemma process_paragraphs_positive:
  assumes "get_batch_size (config eng) = Inr bs" "0 < bs"
  shows "process_paragraphs eng sent ps = process_loop eng (nat bs) ps 0 [] sent"
  using assms by (simp add: process_paragraphs_def)


lemma process_paragraphs_rel:
  assumes "get_batch_size (config eng) = Inr batch_size" and "0 < batch_size"
    and "process_paragraphs eng sent paragraphs = Inr (out, sent')"
  shows "list_all2 same_but_text paragraphs out"
proof -
  have pos: "0 < nat batch_size" using assms(2) by simp
  have "process_loop eng (nat batch_size) paragraphs 0 [] sent = Inr (out, sent')"
    using process_paragraphs_positive[OF assms(1,2)] assms(3) by simp
  from process_loop_all2[OF pos this] show ?thesis by simp
qed







section \<open>The prompt body\<close>

lemma numbered_from_map:
  "numbered_from k bs =
     map (\<lambda>i. str_of_nat (k + i) @ ''. '' @ bs ! i)
       (filter (\<lambda>i. strip (bs ! i) \<noteq> []) [0..<length bs])"
proof (induction bs arbitrary: k)
  case Nil
  then show ?case by simp
next
  case (Cons b bs)
  have upt: "[0..<length (b # bs)] = 0 # map Suc [0..<length bs]"
    by (simp add: upt_conv_Cons map_Suc_upt del: upt_Suc)
  show ?case
    unfolding upt
    by (simp add: Cons.IH filter_map comp_def del: upt_Suc)
qed

text \<open>
  C7. The numbered texts of a batch are exactly its texts that are non-empty after
  stripping, in order, each as its 1-based position in the batch, a period, a space
  and the text. When some text is non-empty, the backend is called once, with these
  joined by a blank line. When every text is empty after stripping, nothing is sent
  to the backend, and the texts, and so the paragraphs of the batch, are returned
  unchanged.
\<close>

theorem prompt_body_excludes_empty_texts:
  "numbered_from 1 batch_texts =
     map (\<lambda>i. str_of_nat (i + 1) @ ''. '' @ batch_texts ! i)
       (filter (\<lambda>i. strip (batch_texts ! i) \<noteq> []) [0..<length batch_texts]) \<and>
   ((\<exists>t \<in> set batch_texts. strip t \<noteq> []) \<longrightarrow>
      snd (translate_batch eng sent batch_texts batch_index) =
        sent @ [join [newline, newline] (numbered_from 1 batch_texts)]) \<and>
   ((\<forall>t \<in> set batch_texts. strip t = []) \<longrightarrow>
      translate_batch eng sent batch_texts batch_index = (batch_texts, sent)) \<and>
   ((\<forall>p \<in> set batch. strip (ptext p) = []) \<longrightarrow>
      update_batch batch (fst (translate_batch eng sent (map ptext batch) batch_index)) = batch \<and>
      snd (translate_batch eng sent (map ptext batch) batch_index) = sent)"
proof (intro conjI impI)
  show "numbered_from 1 batch_texts =
     map (\<lambda>i. str_of_nat (i + 1) @ ''. '' @ batch_texts ! i)
       (filter (\<lambda>i. strip (batch_texts ! i) \<noteq> []) [0..<length batch_texts])"
    by (simp add: numbered_from_map add.commute)
next
  assume "\<exists>t \<in> set batch_texts. strip t \<noteq> []"
  then have "numbered_from 1 batch_texts \<noteq> []"
    by (simp add: numbered_from_empty_iff)
  then show "snd (translate_batch eng sent batch_texts batch_index) =
        sent @ [join [newline, newline] (numbered_from 1 batch_texts)]"
    by (simp add: translate_batch_def Let_def split: sum.splits)
next
  assume "\<forall>t \<in> set batch_texts. strip t = []"
  then have "numbered_from 1 batch_texts = []"
    by (simp add: numbered_from_empty_iff)
  then show "translate_batch eng sent batch_texts batch_index = (batch_texts, sent)"
    by (simp add: translate_batch_def)
next
  assume "\<forall>p \<in> set batch. strip (ptext p) = []"
  then have "numbered_from 1 (map ptext batch) = []"
    by (simp add: numbered_from_empty_iff)
  then have "translate_batch eng sent (map ptext batch) batch_index = (map ptext batch, sent)"
    by (simp add: translate_batch_def)
  then show "update_batch batch (fst (translate_batch eng sent (map ptext batch) batch_index)) = batch"
    and "snd (translate_batch eng sent (map ptext batch) batch_index) = sent"
    by (simp_all add: update_batch_same)
qed

theorem prompt_body_excludes_empty_texts_witness:
  "snd (translate_batch (example_engine failing_backend) [] [''Hi'', '' '', ''yo''] 0)
     = [''1. Hi'' @ [newline, newline] @ ''3. yo''] \<and>
   translate_batch (example_engine failing_backend) [] ['''', '' ''] 0 = (['''', '' ''], []) \<and>
   update_batch [example_para '' '' 0]
     (fst (translate_batch (example_engine failing_backend) [] (map ptext [example_para '' '' 0]) 0))
     = [example_para '' '' 0]"
proof -
  let ?E = "example_engine failing_backend"
  have s: "strip ''Hi'' = ''Hi''" "strip '' '' = []" "strip '''' = []" "strip ''yo'' = ''yo''"
    by code_simp+
  have n: "numbered_from 1 [''Hi'', '' '', ''yo''] = [''1. Hi'', ''3. yo'']"
    by code_simp
  have "\<exists>t \<in> set [''Hi'', '' '', ''yo'']. strip t \<noteq> []"
    by (simp add: s)
  with prompt_body_excludes_empty_texts[of "[''Hi'', '' '', ''yo'']" ?E "[]" 0 "[]"]
  have a: "snd (translate_batch ?E [] [''Hi'', '' '', ''yo''] 0)
             = [] @ [join [newline, newline] (numbered_from 1 [''Hi'', '' '', ''yo''])]"
    by blast
  have "\<forall>t \<in> set ['''', '' '']. strip t = []"
    by (simp add: s)
  with prompt_body_excludes_empty_texts[of "['''', '' '']" ?E "[]" 0 "[]"]
  have b: "translate_batch ?E [] ['''', '' ''] 0 = (['''', '' ''], [])"
    by blast
  have "\<forall>p \<in> set [example_para '' '' 0]. strip (ptext p) = []"
    by (simp add: s example_para_def)
  with prompt_body_excludes_empty_texts[of "[]" ?E "[]" 0 "[example_para '' '' 0]"]
  have c: "update_batch [example_para '' '' 0]
             (fst (translate_batch ?E [] (map ptext [example_para '' '' 0]) 0))
           = [example_para '' '' 0]"
    by blast
  from a have a': "snd (translate_batch ?E [] [''Hi'', '' '', ''yo''] 0)
                     = [''1. Hi'' @ [newline, newline] @ ''3. yo'']"
    unfolding n by simp
  from a' b c show ?thesis by blast
qed

section \<open>The summary of a run\<close>

lemma create_result_summary_fields:
  "create_result_summary cfg tp tt c = Inr s \<Longrightarrow>
   status s = ''completed'' \<and> paragraphs_translated s = length tp \<and>
   total_paragraphs s = length (dc_paragraphs c)"
  by (auto simp: create_result_summary_def split: option.splits)

lemma run_translation_Inr:
  "run_translation eng reader writer sent = Inr s \<Longrightarrow>
   \<exists>input content tp sent'.
     reader input = Inr content \<and>
     process_paragraphs eng sent (dc_paragraphs content) = Inr (tp, sent') \<and>
     create_result_summary (config eng) tp (translate_tables (dc_tables content)) content = Inr s"
  by (auto simp: run_translation_def Let_def split: option.splits sum.splits prod.splits)

text \<open>
  C10, as amended. In every run that returns a summary and has a positive batch size
  (the configured one, or the fallback), the status is \<open>completed\<close> and
  \<open>paragraphs_translated\<close> equals \<open>total_paragraphs\<close>, whatever the backend did: the
  counts do not depend on how many batches fell back to their original texts.
\<close>

theorem summary_counts_ignore_backend_failures:
  assumes "run_translation eng reader writer sent = Inr s"
    and "get_batch_size (config eng) = Inr batch_size" and "0 < batch_size"
  shows "status s = ''completed'' \<and> paragraphs_translated s = total_paragraphs s"
proof -
  from run_translation_Inr[OF assms(1)]
  obtain content tp sent' where
    run: "process_paragraphs eng sent (dc_paragraphs content) = Inr (tp, sent')"
    and sum: "create_result_summary (config eng) tp (translate_tables (dc_tables content)) content
                = Inr s"
    by blast
  have "list_all2 same_but_text (dc_paragraphs content) tp"
    by (rule process_paragraphs_rel[OF assms(2,3) run])
  then have "length tp = length (dc_paragraphs content)"
    by (simp add: list_all2_lengthD)
  with create_result_summary_fields[OF sum] show ?thesis by simp
qed

theorem summary_counts_ignore_backend_failures_witness:
  "run_translation (example_engine failing_backend)
     (\<lambda>path. Inr example_content) (\<lambda>content out_path in_path. None) []
     = Inr \<lparr>status = ''completed'', output_file = CStr ''translated_paper.docx'',
            paragraphs_translated = 3, tables_translated = 0, images_preserved = 0,
            total_paragraphs = 3, target_language = CStr ''Hindi''\<rparr> \<and>
   get_batch_size (config (example_engine failing_backend)) = Inr 2 \<and>
   paragraphs_translated
     \<lparr>status = ''completed'', output_file = CStr ''translated_paper.docx'',
      paragraphs_translated = 3, tables_translated = 0, images_preserved = 0,
      total_paragraphs = 3, target_language = CStr ''Hindi''\<rparr>
   = total_paragraphs
     \<lparr>status = ''completed'', output_file = CStr ''translated_paper.docx'',
      paragraphs_translated = 3, tables_translated = 0, images_preserved = 0,
      total_paragraphs = 3, target_language = CStr ''Hindi''\<rparr>"
proof -
  have run: "run_translation (example_engine failing_backend)
     (\<lambda>path. Inr example_content) (\<lambda>content out_path in_path. None) []
     = Inr \<lparr>status = ''completed'', output_file = CStr ''translated_paper.docx'',
            paragraphs_translated = 3, tables_translated = 0, images_preserved = 0,
            total_paragraphs = 3, target_language = CStr ''Hindi''\<rparr>"
    by code_simp
  have size: "get_batch_size (config (example_engine failing_backend)) = Inr 2"
    by code_simp
  have pos: "(0::int) < 2" by simp
  from summary_counts_ignore_backend_failures[OF run size pos] run size
  show ?thesis by blast
qed

text \<open>
  C10 as stated fails: with a batch size of \<open>-2\<close> the range of the loop is empty, the
  run returns its summary, and the summary counts no translated paragraph for a
  document of three.
\<close>

theorem negative_batch_size_counterexample:
  "run_translation
     \<lparr>config = DEFAULT_CONFIG(''batch_size'' \<mapsto> CInt (- 2)), kickoff = failing_backend\<rparr>
     (\<lambda>path. Inr example_content) (\<lambda>content out_path in_path. None) []
     = Inr \<lparr>status = ''completed'', output_file = CStr ''translated_paper.docx'',
            paragraphs_translated = 0, tables_translated = 0, images_preserved = 0,
            total_paragraphs = 3, target_language = CStr ''Hindi''\<rparr>"
  by code_simp

section \<open>The fallback for the batch size\<close>

text \<open>
  C9. The default configuration has a batch size of 2, and a run without a
  configuration file sends batches of 2. A configuration that has no \<open>batch_size\<close>
  key makes \<open>process_paragraphs\<close> fall back to 3: three paragraphs go to the backend
  as one batch.
\<close>

theorem absent_batch_size_falls_back_to_three:
  "DEFAULT_CONFIG ''batch_size'' = Some (CInt 2) \<and>
   get_batch_size (load_config None) = Inr 2 \<and>
   get_batch_size (load_config (Some [''target_language'' \<mapsto> CStr ''Hindi''])) = Inr 3 \<and>
   process_paragraphs
     \<lparr>config = load_config None, kickoff = failing_backend\<rparr> []
     [example_para ''Hello'' 0, example_para ''World'' 1, example_para ''Bye'' 2]
   = Inr ([example_para ''Hello'' 0, example_para ''World'' 1, example_para ''Bye'' 2],
          [''1. Hello'' @ [newline, newline] @ ''2. World'', ''1. Bye'']) \<and>
   process_paragraphs
     \<lparr>config = load_config (Some [''target_language'' \<mapsto> CStr ''Hindi'']),
      kickoff = failing_backend\<rparr> []
     [example_para ''Hello'' 0, example_para ''World'' 1, example_para ''Bye'' 2]
   = Inr ([example_para ''Hello'' 0, example_para ''World'' 1, example_para ''Bye'' 2],
          [''1. Hello'' @ [newline, newline] @ ''2. World'' @ [newline, newline] @ ''3. Bye''])"
  by code_simp

section \<open>The image reference found by the analyzer\<close>

lemma analyze_runs_has_image:
  "has_image (analyze_runs rs st) = (has_image st \<or> (\<exists>r \<in> set rs. has_pic r))"
  by (induction rs arbitrary: st) (auto simp: Let_def split: option.splits)

lemma last_filter:
  "filter P xs \<noteq> [] \<Longrightarrow> P (last (filter P xs))"
  using last_in_set[of "filter P xs"] by simp

lemma analyze_runs_image_data:
  "image_data (analyze_runs rs st) =
     (case last_image_reference rs of None \<Rightarrow> image_data st | Some i \<Rightarrow> Some i)"
proof (induction rs arbitrary: st)
  case Nil
  then show ?case by (simp add: last_image_reference_def)
next
  case (Cons r rs)
  let ?P = "\<lambda>r. has_pic r \<and> first_embed (blips r) \<noteq> None"
  have tail: "filter ?P rs \<noteq> [] \<Longrightarrow> first_embed (blips (last (filter ?P rs))) \<noteq> None"
    using last_filter[of ?P rs] by simp
  show ?case
    using tail
    by (auto simp: Cons.IH Let_def last_image_reference_def split: option.splits)
qed

text \<open>
  C8, as amended. \<open>has_image\<close> is set exactly when some run has a picture. The
  image reference is the first identifier of the last run that has a picture and an
  identifier, and is absent when there is no such run: within a run the first
  identifier is taken, and a later run with a picture replaces the reference of an
  earlier one.
\<close>

theorem image_reference_of_last_picture_run:
  "has_image (analyze_paragraph_structure p) = (\<exists>r \<in> set (runs p). has_pic r) \<and>
   image_data (analyze_paragraph_structure p) = last_image_reference (runs p)"
  by (simp add: analyze_paragraph_structure_def analyze_runs_has_image analyze_runs_image_data
        split: option.splits)

text \<open>
  C8 as stated fails: in a paragraph with two picture runs, the first embedded image
  is \<open>rId1\<close>, and the reference kept is \<open>rId2\<close>.
\<close>

theorem first_image_reference_counterexample:
  "first_image_reference [picture_run ''rId1'', picture_run ''rId2''] = Some ''rId1'' \<and>
   image_data (analyze_paragraph_structure
                 (example_docx_paragraph [picture_run ''rId1'', picture_run ''rId2'']))
     = Some ''rId2''"
  by code_simp

section \<open>Pictures in the patched document\<close>

lemma has_pic_set_text [simp]: "\<not> has_pic (set_text r t)"
  by (simp add: has_pic_def set_text_def)

lemma set_first_text_run_None:
  "set_first_text_run rs t = None \<longleftrightarrow> (\<forall>r \<in> set rs. has_pic r)"
  by (induction rs) auto

lemma set_first_text_run_Some:
  "set_first_text_run rs t = Some rs' \<Longrightarrow>
   rs' = rs[length (takeWhile has_pic rs) := set_text (rs ! length (takeWhile has_pic rs)) t]"
  by (induction rs arbitrary: rs') (auto split: if_splits)

lemma set_first_text_run_pics:
  "set_first_text_run rs t = Some rs' \<Longrightarrow> filter has_pic rs' = filter has_pic rs"
  by (induction rs arbitrary: rs') (auto split: if_splits)

lemma clear_text_runs_pics:
  "filter has_pic (map (\<lambda>r. if \<not> has_pic r then set_text r [] else r) rs) = filter has_pic rs"
  by (induction rs) auto

lemma has_pic_new_run [simp]:
  "\<not> has_pic \<lparr>run_text = t, bold = b, italic = i, pics = 0, blips = bl\<rparr>"
  by (simp add: has_pic_def)

lemma update_paragraph_text_pics:
  "filter has_pic (runs (update_paragraph_text p trans_para)) = filter has_pic (runs p)"
  by (auto simp: update_paragraph_text_def Let_def add_run_def clear_text_runs_pics
        dest!: set_first_text_run_pics split: option.splits)

lemma update_paragraphs_pics:
  "map (\<lambda>p. filter has_pic (runs p)) (update_paragraphs i m doc) =
   map (\<lambda>p. filter has_pic (runs p)) doc"
  by (induction doc arbitrary: i) (simp_all add: update_paragraph_text_pics split: option.splits)


lemma update_paragraph_text_with_image:
  assumes "has_image trans_para" and "strip (ptext trans_para) \<noteq> []"
  shows "runs (update_paragraph_text p trans_para) =
           (if \<exists>r \<in> set (runs p). \<not> has_pic r
            then (runs p)[length (takeWhile has_pic (runs p)) :=
                   set_text (runs p ! length (takeWhile has_pic (runs p))) (ptext trans_para)]
            else runs p @ [text_run ('' '' @ ptext trans_para)])"
proof (cases "set_first_text_run (runs p) (ptext trans_para)")
  case None
  then have "\<forall>r \<in> set (runs p). has_pic r"
    by (simp add: set_first_text_run_None)
  then show ?thesis
    using assms None by (simp add: update_paragraph_text_def add_run_def text_run_def)
next
  case (Some rs)
  then have "\<not> (\<forall>r \<in> set (runs p). has_pic r)"
    using set_first_text_run_None[of "runs p" "ptext trans_para"] by simp
  then show ?thesis
    using assms Some set_first_text_run_Some[OF Some]
    by (simp add: update_paragraph_text_def)
qed

text \<open>
  C4. Patching the original document leaves the runs with a picture of every
  paragraph as they are, none cleared, removed or moved. For a translated paragraph
  that is flagged as having an image and whose text is non-empty after stripping, the
  text goes into the first run without a picture if there is one, and otherwise into
  a new last run, behind a space. The images of the translated content are those of
  the content that was read.
\<close>

theorem image_runs_survive_patch:
  "map (\<lambda>p. filter has_pic (runs p)) (update_original_document translated_content doc) =
     map (\<lambda>p. filter has_pic (runs p)) doc \<and>
   (has_image trans_para \<and> strip (ptext trans_para) \<noteq> [] \<longrightarrow>
      runs (update_paragraph_text p trans_para) =
        (if \<exists>r \<in> set (runs p). \<not> has_pic r
         then (runs p)[length (takeWhile has_pic (runs p)) :=
                set_text (runs p ! length (takeWhile has_pic (runs p))) (ptext trans_para)]
         else runs p @ [text_run ('' '' @ ptext trans_para)])) \<and>
   dc_images (create_translated_content translated_paragraphs translated_tables content) =
     dc_images content"
  by (simp add: update_original_document_def update_paragraphs_pics
        update_paragraph_text_with_image create_translated_content_def)

theorem image_runs_survive_patch_witness:
  "runs (update_paragraph_text
           (example_docx_paragraph [picture_run ''rId1'', text_run ''Hello'', text_run ''world''])
           ((example_para ''Bonjour'' 0)\<lparr>has_image := True\<rparr>))
     = [picture_run ''rId1'', text_run ''Bonjour'', text_run ''world''] \<and>
   runs (update_paragraph_text
           (example_docx_paragraph [picture_run ''rId1''])
           ((example_para ''Bonjour'' 0)\<lparr>has_image := True\<rparr>))
     = [picture_run ''rId1'', text_run '' Bonjour'']"
proof -
  let ?T = "(example_para ''Bonjour'' 0)\<lparr>has_image := True\<rparr>"
  let ?P = "example_docx_paragraph [picture_run ''rId1'', text_run ''Hello'', text_run ''world'']"
  let ?Q = "example_docx_paragraph [picture_run ''rId1'']"
  have "strip ''Bonjour'' = ''Bonjour''" by code_simp
  then have hyp: "has_image ?T \<and> strip (ptext ?T) \<noteq> []"
    by (simp add: example_para_def)
  have pic: "has_pic (picture_run ''rId1'')" "\<not> has_pic (text_run ''Hello'')"
    "\<not> has_pic (text_run ''world'')"
    by (simp_all add: has_pic_def picture_run_def text_run_def)
  have set: "set_text (text_run ''Hello'') ''Bonjour'' = text_run ''Bonjour''"
    by (simp add: set_text_def text_run_def)
  have t: "ptext ?T = ''Bonjour''" by (simp add: example_para_def)
  from image_runs_survive_patch[of example_content "[]" ?T ?P "[]" "[]" example_content] hyp
  have "runs (update_paragraph_text ?P ?T) =
        (if \<exists>r \<in> set (runs ?P). \<not> has_pic r
         then (runs ?P)[length (takeWhile has_pic (runs ?P)) :=
                set_text (runs ?P ! length (takeWhile has_pic (runs ?P))) (ptext ?T)]
         else runs ?P @ [text_run ('' '' @ ptext ?T)])"
    by blast
  then have a: "runs (update_paragraph_text ?P ?T)
                  = [picture_run ''rId1'', text_run ''Bonjour'', text_run ''world'']"
    unfolding t by (simp add: example_docx_paragraph_def pic set)
  from image_runs_survive_patch[of example_content "[]" ?T ?Q "[]" "[]" example_content] hyp
  have "runs (update_paragraph_text ?Q ?T) =
        (if \<exists>r \<in> set (runs ?Q). \<not> has_pic r
         then (runs ?Q)[length (takeWhile has_pic (runs ?Q)) :=
                set_text (runs ?Q ! length (takeWhile has_pic (runs ?Q))) (ptext ?T)]
         else runs ?Q @ [text_run ('' '' @ ptext ?T)])"
    by blast
  then have b: "runs (update_paragraph_text ?Q ?T) = [picture_run ''rId1'', text_run '' Bonjour'']"
    unfolding t by (simp add: example_docx_paragraph_def pic)
  from a b show ?thesis by blast
qed

section \<open>The lines of a cleaned text\<close>

lemma last_dropWhile:
  "dropWhile P xs \<noteq> [] \<Longrightarrow> last (dropWhile P xs) = last xs"
  by (induction xs) (auto split: if_splits)

lemma strip_tidy: "tidy s \<Longrightarrow> strip s = s"
proof (cases "s = []")
  case True
  then show ?thesis by (simp add: strip_def)
next
  case False
  assume "tidy s"
  with False have h: "\<not> is_space (hd s)" and l: "\<not> is_space (last s)"
    by (simp_all add: tidy_def)
  from False h have a: "dropWhile is_space s = s"
    by (cases s) simp_all
  from False l have "\<not> is_space (hd (rev s))"
    by (simp add: hd_rev)
  with False have b: "dropWhile is_space (rev s) = rev s"
    by (cases "rev s") simp_all
  show ?thesis by (simp add: strip_def a b)
qed

lemma tidy_strip: "tidy (strip s)"
proof (cases "strip s = []")
  case True
  then show ?thesis by (simp add: tidy_def)
next
  case False
  define t where "t = dropWhile is_space s"
  define u where "u = dropWhile is_space (rev t)"
  have st: "strip s = rev u" by (simp add: strip_def u_def t_def)
  have u: "u \<noteq> []" using False st by simp
  have t: "t \<noteq> []"
  proof
    assume "t = []"
    then have "u = []" unfolding u_def by simp
    with u show False by contradiction
  qed
  have "\<not> is_space (hd u)" using u unfolding u_def by (rule hd_dropWhile)
  then have last: "\<not> is_space (last (strip s))"
    using u by (simp add: st last_rev)
  have "last u = last (rev t)" using u unfolding u_def by (rule last_dropWhile)
  also have "\<dots> = hd t" using t by (simp add: last_rev)
  finally have "hd (strip s) = hd t"
    using u by (simp add: st hd_rev)
  moreover have "\<not> is_space (hd t)" using t unfolding t_def by (rule hd_dropWhile)
  ultimately show ?thesis using last by (simp add: tidy_def)
qed

lemma set_strip: "set (strip s) \<subseteq> set s"
proof -
  have "set (strip s) = set (dropWhile is_space (rev (dropWhile is_space s)))"
    by (simp add: strip_def)
  also have "\<dots> \<subseteq> set (rev (dropWhile is_space s))"
    by (auto dest: set_dropWhileD)
  also have "\<dots> \<subseteq> set s"
    by (auto dest: set_dropWhileD)
  finally show ?thesis .
qed

lemma split_not_Nil [simp]: "split d s \<noteq> []"
  by (induction s) (auto split: list.splits)

lemma split_no_sep: "l \<in> set (split d s) \<Longrightarrow> d \<notin> set l"
  by (induction s arbitrary: l) (auto split: if_splits list.splits)

lemma split_without_sep: "d \<notin> set x \<Longrightarrow> split d x = [x]"
  by (induction x) auto

lemma split_append_sep:
  "d \<notin> set x \<Longrightarrow> split d (x @ d # rest) = x # split d rest"
  by (induction x) (auto split: list.splits)

lemma split_join:
  "ls \<noteq> [] \<Longrightarrow> \<forall>l \<in> set ls. d \<notin> set l \<Longrightarrow> split d (join [d] ls) = ls"
  by (induction "[d]" ls rule: join.induct) (simp_all add: split_without_sep split_append_sep)

lemma clean_lines_tidy:
  "l \<in> set (clean_lines ls) \<Longrightarrow> l \<noteq> [] \<and> tidy l \<and> (\<exists>x \<in> set ls. set l \<subseteq> set x)"
  by (induction ls) (auto simp: Let_def tidy_strip split: if_splits dest: set_strip[THEN subsetD])

lemma tidy_join:
  "\<forall>l \<in> set ls. l \<noteq> [] \<and> tidy l \<Longrightarrow> tidy (join sep ls)"
proof (induction sep ls rule: join.induct)
  case (1 sep)
  then show ?case by (simp add: tidy_def)
next
  case (2 sep x)
  then show ?case by simp
next
  case (3 sep x y ys)
  then have rest: "tidy (join sep (y # ys))" by simp
  have ne: "join sep (y # ys) \<noteq> []"
    using "3.prems" by (cases ys) auto
  from "3.prems" have x: "x \<noteq> []" "\<not> is_space (hd x)"
    by (auto simp: tidy_def)
  from rest ne have "\<not> is_space (last (join sep (y # ys)))"
    by (simp add: tidy_def)
  with x ne show ?case by (simp add: tidy_def)
qed

lemma cleaned_lines:
  "\<forall>l \<in> set (split newline (clean_translation_result raw)). tidy l"
proof -
  define cl where
    "cl = clean_lines (split newline (remove_prefix PREFIXES_TO_REMOVE (strip raw)))"
  have props: "\<forall>l \<in> set cl. l \<noteq> [] \<and> tidy l \<and> newline \<notin> set l"
  proof
    fix l assume "l \<in> set cl"
    from clean_lines_tidy[OF this[unfolded cl_def]]
    obtain x where "l \<noteq> []" "tidy l"
      and x: "x \<in> set (split newline (remove_prefix PREFIXES_TO_REMOVE (strip raw)))"
      and sub: "set l \<subseteq> set x"
      by blast
    moreover have "newline \<notin> set x" using x by (rule split_no_sep)
    ultimately show "l \<noteq> [] \<and> tidy l \<and> newline \<notin> set l" by auto
  qed
  have "clean_translation_result raw = strip (join [newline] cl)"
    by (simp add: clean_translation_result_def cl_def Let_def)
  also have "\<dots> = join [newline] cl"
    using props by (intro strip_tidy tidy_join) simp
  finally have eq: "clean_translation_result raw = join [newline] cl" .
  show ?thesis
  proof (cases "cl = []")
    case True
    then show ?thesis by (simp add: eq tidy_def)
  next
    case False
    then have "split newline (join [newline] cl) = cl"
      using props by (intro split_join) simp_all
    then show ?thesis using props by (simp add: eq)
  qed
qed

section \<open>The items of a cleaned text\<close>

lemma parse_items_finish:
  "parse_items cleaned = finish (parse_loop (split newline cleaned) [] [])"
  by (simp add: parse_items_def finish_def split: prod.splits)

lemma tidy_append_line:
  "tidy cur \<Longrightarrow> cur \<noteq> [] \<Longrightarrow> tidy l \<Longrightarrow> l \<noteq> [] \<Longrightarrow> tidy (cur @ '' '' @ l)"
  by (simp add: tidy_def)

lemma strip_Nil [simp]: "strip [] = []"
  by (simp add: strip_def)

lemma tidy_remove_marker:
  assumes "is_marker l" and "tidy l" and "remove_marker l \<noteq> []"
  shows "tidy (remove_marker l)"
proof -
  define e where "e = dropWhile is_digit l"
  define d where "d = drop 1 e"
  have rm: "remove_marker l = dropWhile is_space d"
    using assms(1) by (simp add: remove_marker_def d_def e_def)
  have ne: "dropWhile is_space d \<noteq> []" using assms(3) rm by simp
  have d: "d \<noteq> []"
  proof
    assume "d = []"
    then have "dropWhile is_space d = []" by simp
    with ne show False by contradiction
  qed
  have e: "e \<noteq> []"
  proof
    assume "e = []"
    then have "d = []" unfolding d_def by simp
    with d show False by contradiction
  qed
  have l: "l \<noteq> []"
  proof
    assume "l = []"
    then have "e = []" unfolding e_def by simp
    with e show False by contradiction
  qed
  have hd: "\<not> is_space (hd (dropWhile is_space d))" using ne by (rule hd_dropWhile)
  have "last (dropWhile is_space d) = last d" using ne by (rule last_dropWhile)
  also have "\<dots> = last e"
    using d unfolding d_def by (simp add: last_drop)
  also have "\<dots> = last l"
    using e unfolding e_def by (rule last_dropWhile)
  finally have "last (dropWhile is_space d) = last l" .
  moreover have "\<not> is_space (last l)" using assms(2) l by (simp add: tidy_def)
  ultimately show ?thesis using hd rm by (simp add: tidy_def)
qed

lemma parse_loop_spec:
  assumes "\<forall>l \<in> set ls. tidy l \<and> (is_marker l \<longrightarrow> remove_marker l \<noteq> [])"
    and "tidy cur"
  shows "finish (parse_loop ls acc cur) =
           acc @ (if cur = [] then []
                  else [foldl (\<lambda>item line. item @ '' '' @ line) cur
                          (filter (\<lambda>line. line \<noteq> [])
                             (takeWhile (\<lambda>line. \<not> is_marker line) ls))])
               @ spec_items ls"
  using assms
proof (induction ls arbitrary: acc cur)
  case Nil
  then show ?case by (simp add: finish_def strip_tidy)
next
  case (Cons l ls)
  have l: "strip l = l" using Cons.prems(1) by (simp add: strip_tidy)
  have rest: "\<forall>l \<in> set ls. tidy l \<and> (is_marker l \<longrightarrow> remove_marker l \<noteq> [])"
    using Cons.prems(1) by simp
  show ?case
  proof (cases "is_marker l")
    case True
    then have ne: "remove_marker l \<noteq> []" using Cons.prems(1) by simp
    have t: "tidy (remove_marker l)"
      using True Cons.prems(1) ne by (intro tidy_remove_marker) simp_all
    show ?thesis
      using True ne Cons.IH[OF rest t] Cons.prems(2)
      by (simp add: l strip_tidy)
  next
    case False
    show ?thesis
    proof (cases "cur = []")
      case True
      then show ?thesis
        using False Cons.IH[OF rest Cons.prems(2)] by (simp add: l)
    next
      case cur: False
      show ?thesis
      proof (cases "l = []")
        case True
        then show ?thesis
          using False cur Cons.IH[OF rest Cons.prems(2)] by (simp add: l)
      next
        case lne: False
        have t: "tidy (cur @ '' '' @ l)"
          using Cons.prems cur lne by (intro tidy_append_line) simp_all
        show ?thesis
          using False cur lne Cons.IH[OF rest t] by (simp add: l)
      qed
    qed
  qed
qed

text \<open>
  C5, as amended. For every cleaned response text in which every marker line has
  text behind its marker, the items of the parser are those of the specification's
  rule on the lines of the text: each line that begins with digits and a period
  starts an item, which is the line without the marker, followed by the non-empty
  lines up to the next marker, each behind a space; the items come in the order of
  the marker lines in the text, and the numbers in the markers are not read.
\<close>

theorem items_follow_markers_in_textual_order:
  assumes "\<forall>l \<in> set (split newline (clean_translation_result raw)).
             is_marker l \<longrightarrow> remove_marker l \<noteq> []"
  shows "parse_items (clean_translation_result raw) =
           spec_items (split newline (clean_translation_result raw))"
proof -
  have "\<forall>l \<in> set (split newline (clean_translation_result raw)).
          tidy l \<and> (is_marker l \<longrightarrow> remove_marker l \<noteq> [])"
    using assms cleaned_lines[of raw] by blast
  from parse_loop_spec[OF this, of "[]" "[]"]
  show ?thesis by (simp add: parse_items_finish tidy_def)
qed

text \<open>
  C5 as stated fails: in the cleaned text \<open>"1.\nfoo"\<close> the line \<open>1.\<close> is a marker line,
  and the rule gives one item with \<open>foo\<close> joined onto it, but the parser returns no
  item: a marker line with nothing behind the marker starts no item, and the lines
  that follow it are dropped.
\<close>

theorem empty_marker_counterexample:
  "split newline (clean_translation_result (''1.'' @ [newline] @ ''foo'')) = [''1.'', ''foo''] \<and>
   is_marker ''1.'' \<and>
   spec_items [''1.'', ''foo''] = ['' foo''] \<and>
   parse_items (clean_translation_result (''1.'' @ [newline] @ ''foo'')) = []"
  by code_simp

theorem items_follow_markers_in_textual_order_witness:
  "split newline (clean_translation_result
      (''2. Bonjour'' @ [newline] @ ''le monde'' @ [newline] @ ''1. Salut''))
     = [''2. Bonjour'', ''le monde'', ''1. Salut''] \<and>
   parse_items (clean_translation_result
      (''2. Bonjour'' @ [newline] @ ''le monde'' @ [newline] @ ''1. Salut''))
     = [''Bonjour le monde'', ''Salut'']"
proof -
  let ?raw = "''2. Bonjour'' @ [newline] @ ''le monde'' @ [newline] @ ''1. Salut''"
  have lines: "split newline (clean_translation_result ?raw)
                 = [''2. Bonjour'', ''le monde'', ''1. Salut'']"
    by code_simp
  have m: "remove_marker ''2. Bonjour'' = ''Bonjour''" "\<not> is_marker ''le monde''"
    "remove_marker ''1. Salut'' = ''Salut''"
    by code_simp+
  have hyp: "\<forall>l \<in> set (split newline (clean_translation_result ?raw)).
               is_marker l \<longrightarrow> remove_marker l \<noteq> []"
    unfolding lines by (simp add: m)
  have spec: "spec_items [''2. Bonjour'', ''le monde'', ''1. Salut'']
                = [''Bonjour le monde'', ''Salut'']"
    by code_simp
  from items_follow_markers_in_textual_order[OF hyp] lines spec
  have "parse_items (clean_translation_result ?raw) = [''Bonjour le monde'', ''Salut'']"
    by simp
  with lines show ?thesis by blast
qed

end
